theory Spec2Isabelle
  imports Main "HOL-Library.Word"
begin

section \<open>Library functions used by the program\<close>

subsection \<open>Package strings\<close>

text \<open>
  Go strings are byte sequences; \<open>string\<close> is a list of 8-bit characters. The functions
  below follow the documented behaviour of the standard library on such byte strings.
\<close>

definition HasPrefix :: "string \<Rightarrow> string \<Rightarrow> bool" where
  "HasPrefix s p = (length p \<le> length s \<and> take (length p) s = p)"

definition HasSuffix :: "string \<Rightarrow> string \<Rightarrow> bool" where
  "HasSuffix s suffix =
     (length suffix \<le> length s \<and> drop (length s - length suffix) s = suffix)"

definition TrimSuffix :: "string \<Rightarrow> string \<Rightarrow> string" where
  "TrimSuffix s suffix =
     (if HasSuffix s suffix then take (length s - length suffix) s else s)"

text \<open>\<open>strings.Contains s sub\<close>: some position of \<open>s\<close> starts an occurrence of \<open>sub\<close>.\<close>

fun Contains :: "string \<Rightarrow> string \<Rightarrow> bool" where
  "Contains [] sub = (sub = [])"
| "Contains (c # cs) sub = (HasPrefix (c # cs) sub \<or> Contains cs sub)"

text \<open>
  \<open>strings.ToLower\<close> on ASCII text: the letters A to Z (bytes 65 to 90) move to a to z,
  every other byte stays. Error messages of this program are ASCII; the Unicode case
  tables that Go applies to multi-byte runes are outside the model.
\<close>

definition toLower_char :: "char \<Rightarrow> char" where
  "toLower_char c =
     (let n = (of_char c :: nat) in if 65 \<le> n \<and> n \<le> 90 then char_of (n + 32) else c)"

definition ToLower :: "string \<Rightarrow> string" where
  "ToLower s = map toLower_char s"

subsection \<open>Package path/filepath (Unix: the separator is the slash, no volume names)\<close>

text \<open>\<open>filepath.Ext\<close>: the suffix from the last dot of the last path element, if any.\<close>

fun ext_scan :: "string \<Rightarrow> string \<Rightarrow> string" where
  "ext_scan [] acc = []"
| "ext_scan (c # cs) acc =
     (if c = CHR ''/'' then []
      else if c = CHR ''.'' then c # acc
      else ext_scan cs (c # acc))"

definition Ext :: "string \<Rightarrow> string" where
  "Ext path = ext_scan (rev path) []"

fun split_sep :: "string \<Rightarrow> string list" where
  "split_sep [] = [[]]"
| "split_sep (c # cs) =
     (if c = CHR ''/'' then [] # split_sep cs
      else (case split_sep cs of
              [] \<Rightarrow> [[c]]
            | x # xs \<Rightarrow> (c # x) # xs))"

fun join_sep :: "string list \<Rightarrow> string" where
  "join_sep [] = []"
| "join_sep [x] = x"
| "join_sep (x # y # ys) = x @ ''/'' @ join_sep (y # ys)"

text \<open>
  \<open>filepath.Clean\<close> processes the path element by element: empty elements and \<open>.\<close>
  vanish, \<open>..\<close> removes the element before it, except at the root (where it vanishes)
  and after a leading run of \<open>..\<close> of a relative path (where it is kept). \<open>out\<close> holds
  the elements written so far, the last one first.
\<close>

fun clean_step :: "bool \<Rightarrow> string list \<Rightarrow> string \<Rightarrow> string list" where
  "clean_step rooted out el =
     (if el = [] \<or> el = ''.'' then out
      else if el = ''..'' then
        (case out of
           [] \<Rightarrow> (if rooted then [] else [''..''])
         | e # rest \<Rightarrow> (if e = ''..'' then ''..'' # out else rest))
      else el # out)"

definition Clean :: "string \<Rightarrow> string" where
  "Clean path =
     (if path = [] then ''.''
      else
        (let rooted = (hd path = CHR ''/'');
             out = foldl (clean_step rooted) [] (split_sep path);
             body = join_sep (rev out)
         in if rooted then CHR ''/'' # body
            else if body = [] then ''.'' else body))"

text \<open>\<open>filepath.Dir\<close>: all but the last element of the path, cleaned.\<close>

definition Dir :: "string \<Rightarrow> string" where
  "Dir path = Clean (rev (dropWhile (\<lambda>c. c \<noteq> CHR ''/'') (rev path)))"

text \<open>\<open>filepath.Join\<close>: leading empty elements are ignored, the rest is joined and cleaned.\<close>

definition Join :: "string list \<Rightarrow> string" where
  "Join elem =
     (case dropWhile (\<lambda>e. e = []) elem of
        [] \<Rightarrow> []
      | es \<Rightarrow> Clean (join_sep es))"

subsection \<open>The file system as seen through os.Stat\<close>

text \<open>
  A path names a regular file with its bytes, a directory, or an entry on which \<open>stat\<close>
  fails with an error other than absence (permission denied, I/O error). A path that
  is not in the mapping does not exist. Directory sizes are not modelled.
\<close>

type_synonym byte = "8 word"

datatype node = RegularFile "byte list" | Directory | Inaccessible string

type_synonym filesystem = "string \<rightharpoonup> node"

record FileInfo =
  fi_Size :: int
  fi_IsDir :: bool

definition os_Stat :: "filesystem \<Rightarrow> string \<Rightarrow> string + FileInfo" where
  "os_Stat fs path =
     (case fs path of
        None \<Rightarrow> Inl (''stat '' @ path @ '': no such file or directory'')
      | Some (Inaccessible e) \<Rightarrow> Inl (''stat '' @ path @ '': '' @ e)
      | Some (RegularFile bs) \<Rightarrow> Inr \<lparr>fi_Size = int (length bs), fi_IsDir = False\<rparr>
      | Some Directory \<Rightarrow> Inr \<lparr>fi_Size = 0, fi_IsDir = True\<rparr>)"

section \<open>Configuration and data model\<close>

type_synonym ModelType = string

definition ModelTypeCheckpoint :: ModelType where "ModelTypeCheckpoint = ''checkpoints''"
definition ModelTypeLora :: ModelType where "ModelTypeLora = ''loras''"
definition ModelTypeVAE :: ModelType where "ModelTypeVAE = ''vae''"
definition ModelTypeEmbedding :: ModelType where "ModelTypeEmbedding = ''embeddings''"
definition ModelTypeControlNet :: ModelType where "ModelTypeControlNet = ''controlnet''"
definition ModelTypeUpscale :: ModelType where "ModelTypeUpscale = ''upscale_models''"
definition ModelTypeClipVision :: ModelType where "ModelTypeClipVision = ''clip_vision''"

record Config =
  ComfyUIPath :: string
  HuggingFaceToken :: string
  CivitAIToken :: string
  MaxWorkers :: int
  ModelDirs :: "string \<rightharpoonup> string"
  DownloadTimeout :: "64 word"
  RetryAttempts :: int

record Model =
  Name :: string
  Type :: ModelType
  Hash :: string
  Source :: string
  DownloadURL :: string
  LocalPath :: string
  Size :: int
  IsPresent :: bool

record SearchResult =
  sr_Name :: string
  sr_Source :: string
  sr_DownloadURL :: string
  sr_Hash :: string
  sr_Size :: int
  sr_ModelType :: ModelType

text \<open>One second and one minute as \<open>time.Duration\<close>, a signed 64-bit count of nanoseconds.\<close>

definition Second :: "64 word" where "Second = 1000000000"
definition Minute :: "64 word" where "Minute = 60 * Second"

definition DefaultConfig :: Config where
  "DefaultConfig =
     \<lparr>ComfyUIPath = ''/workspace/ComfyUI'',
      HuggingFaceToken = '''',
      CivitAIToken = '''',
      MaxWorkers = 3,
      ModelDirs =
        [ModelTypeCheckpoint \<mapsto> ''models/checkpoints'',
         ModelTypeLora \<mapsto> ''models/loras'',
         ModelTypeVAE \<mapsto> ''models/vae'',
         ModelTypeEmbedding \<mapsto> ''models/embeddings'',
         ModelTypeControlNet \<mapsto> ''models/controlnet'',
         ModelTypeUpscale \<mapsto> ''models/upscale_models'',
         ModelTypeClipVision \<mapsto> ''models/clip_vision''],
      DownloadTimeout = 30 * Minute,
      RetryAttempts = 3\<rparr>"

definition GetModelPath :: "Config \<Rightarrow> ModelType \<Rightarrow> string \<Rightarrow> string" where
  "GetModelPath c modelType filename =
     (let dir = (case ModelDirs c modelType of
                   None \<Rightarrow> ''models/unknown''
                 | Some d \<Rightarrow> d)
      in Join [ComfyUIPath c, dir, filename])"

section \<open>Presence scanner\<close>

definition fileExists :: "filesystem \<Rightarrow> string \<Rightarrow> bool" where
  "fileExists fs path =
     (case os_Stat fs path of Inl err \<Rightarrow> False | Inr info \<Rightarrow> \<not> fi_IsDir info)"

definition dirExists :: "filesystem \<Rightarrow> string \<Rightarrow> bool" where
  "dirExists fs path =
     (case os_Stat fs path of Inl err \<Rightarrow> False | Inr info \<Rightarrow> fi_IsDir info)"

definition extensions :: "string list" where
  "extensions =
     [''.safetensors'', ''.ckpt'', ''.pt'', ''.pth'', ''.bin'', ''.yaml'', ''.json'']"

text \<open>
  The loop over the candidate extensions of \<open>checkModelExists\<close>. The source overwrites
  \<open>model.LocalPath\<close> of its by-value copy before returning; the caller never sees it.
\<close>

fun try_extensions :: "filesystem \<Rightarrow> string \<Rightarrow> string \<Rightarrow> string list \<Rightarrow> bool" where
  "try_extensions fs dirPath baseNameWithoutExt [] = False"
| "try_extensions fs dirPath baseNameWithoutExt (ext # exts) =
     (let testPath = Join [dirPath, baseNameWithoutExt @ ext]
      in if fileExists fs testPath then True
         else try_extensions fs dirPath baseNameWithoutExt exts)"

text \<open>The result is Go's pair \<open>(bool, error)\<close>: \<open>Inl\<close> carries the error.\<close>

definition checkModelExists :: "filesystem \<Rightarrow> Model \<Rightarrow> string + bool" where
  "checkModelExists fs model =
     (if fileExists fs (LocalPath model) then Inr True
      else
        (let baseNameWithoutExt = TrimSuffix (Name model) (Ext (Name model));
             dirPath = Dir (LocalPath model)
         in if try_extensions fs dirPath baseNameWithoutExt extensions then Inr True
            else if dirExists fs (LocalPath model) then Inr True
            else Inr False))"

fun ScanModels_loop ::
  "filesystem \<Rightarrow> Model list \<Rightarrow> Model list \<Rightarrow> Model list \<Rightarrow> string + (Model list \<times> Model list)"
where
  "ScanModels_loop fs [] present missing = Inr (present, missing)"
| "ScanModels_loop fs (model # rest) present missing =
     (case checkModelExists fs model of
        Inl err \<Rightarrow> Inl (''error checking model '' @ Name model @ '': '' @ err)
      | Inr exists \<Rightarrow>
          (let model' = model\<lparr>IsPresent := exists\<rparr>
           in if exists then ScanModels_loop fs rest (present @ [model']) missing
              else ScanModels_loop fs rest present (missing @ [model'])))"

definition ScanModels :: "filesystem \<Rightarrow> Model list \<Rightarrow> string + (Model list \<times> Model list)" where
  "ScanModels fs models = ScanModels_loop fs models [] []"

section \<open>Remote resolver\<close>

text \<open>
  The two registry clients are HTTP wrappers; the resolver sees them as functions from
  a query to an error or a result list. \<open>GetModelByHash\<close> returns a nil result with a
  nil error when the registry does not know the hash.
\<close>

record registries =
  hf_SearchModels :: "string \<Rightarrow> ModelType \<Rightarrow> string + SearchResult list"
  civit_SearchModels :: "string \<Rightarrow> ModelType \<Rightarrow> string + SearchResult list"
  civit_GetModelByHash :: "string \<Rightarrow> string + SearchResult option"

datatype query =
  QueryHuggingFace string ModelType
| QueryCivitAI string ModelType
| QueryCivitAIByHash string

definition cleanModelName :: "string \<Rightarrow> string" where
  "cleanModelName name =
     foldl TrimSuffix (TrimSuffix name (Ext name))
       [''_fp16'', ''_fp32'', ''-fp16'', ''-fp32'', ''_pruned'', ''-pruned'']"

text \<open>Whether a registry answer is taken: no error and at least one result.\<close>

fun first_result :: "string + SearchResult list \<Rightarrow> SearchResult option" where
  "first_result (Inl err) = None"
| "first_result (Inr []) = None"
| "first_result (Inr (r # rs)) = Some r"

text \<open>
  \<open>searchModel\<close> returns the chosen candidate (\<open>None\<close> for Go's nil) together with the
  registry calls it made, in order.
\<close>

definition searchModel :: "Config \<Rightarrow> registries \<Rightarrow> Model \<Rightarrow> SearchResult option \<times> query list" where
  "searchModel config reg model =
     (let searchName = cleanModelName (Name model);
          hfQuery = (if HuggingFaceToken config \<noteq> []
                     then [QueryHuggingFace searchName (Type model)] else []);
          hfResult = (if HuggingFaceToken config \<noteq> []
                      then first_result (hf_SearchModels reg searchName (Type model))
                      else None)
      in case hfResult of
           Some r \<Rightarrow> (Some r, hfQuery)
         | None \<Rightarrow>
             (case first_result (civit_SearchModels reg searchName (Type model)) of
                Some r \<Rightarrow> (Some r, hfQuery @ [QueryCivitAI searchName (Type model)])
              | None \<Rightarrow>
                  (if Hash model \<noteq> [] \<and> CivitAIToken config \<noteq> [] then
                     (case civit_GetModelByHash reg (Hash model) of
                        Inr (Some result) \<Rightarrow>
                          (Some (result\<lparr>sr_ModelType := Type model\<rparr>),
                           hfQuery @ [QueryCivitAI searchName (Type model),
                                      QueryCivitAIByHash (Hash model)])
                      | _ \<Rightarrow>
                          (None,
                           hfQuery @ [QueryCivitAI searchName (Type model),
                                      QueryCivitAIByHash (Hash model)]))
                   else (None, hfQuery @ [QueryCivitAI searchName (Type model)]))))"

text \<open>
  \<open>searchModels\<close> starts one goroutine per model; each stores its result under the
  model's name while holding the mutex. The model runs them in list order.
\<close>

fun searchModels_loop ::
  "Config \<Rightarrow> registries \<Rightarrow> Model list \<Rightarrow> (string \<rightharpoonup> SearchResult) \<Rightarrow> (string \<rightharpoonup> SearchResult)"
where
  "searchModels_loop config reg [] results = results"
| "searchModels_loop config reg (model # rest) results =
     (case fst (searchModel config reg model) of
        None \<Rightarrow> searchModels_loop config reg rest results
      | Some result \<Rightarrow> searchModels_loop config reg rest (results(Name model \<mapsto> result)))"

definition searchModels :: "Config \<Rightarrow> registries \<Rightarrow> Model list \<Rightarrow> (string \<rightharpoonup> SearchResult)" where
  "searchModels config reg models = searchModels_loop config reg models Map.empty"

section \<open>Transfer engine\<close>

subsection \<open>HTTP and the operating system\<close>

record Request =
  req_Method :: string
  req_URL :: string
  req_Header :: "(string \<times> string) list"

text \<open>
  A response body is a reader: it delivers chunks of bytes and then ends with
  \<open>io.EOF\<close> or with a read error (a connection cut in the middle of the transfer).
\<close>

datatype read_end = EOF | ReadError string

record Response =
  StatusCode :: int
  Status :: string
  ContentLength :: int
  Body :: "byte list list"
  BodyEnd :: read_end

text \<open>
  What the program cannot decide is an oracle of the environment: the answer of the
  server to the n-th request of the run, and the causes for which a system call fails
  (\<open>None\<close>: it does not fail for an external cause).
\<close>

record env =
  http_Do :: "nat \<Rightarrow> Request \<Rightarrow> string + Response"
  newRequest_err :: "string \<Rightarrow> string option"
  mkdirAll_err :: "string \<Rightarrow> string option"
  openFile_err :: "string \<Rightarrow> string option"
  seek_err :: "string \<Rightarrow> string option"
  write_err :: "string \<Rightarrow> nat \<Rightarrow> string option"
  rename_err :: "string \<Rightarrow> string \<Rightarrow> string option"
  time_Now :: int

text \<open>A Go error value is its message; a panic unwinds the whole call stack.\<close>

datatype failure = Err string | Panic string

record DownloadProgress =
  dp_Model :: Model
  Downloaded :: int
  Total :: int
  StartTime :: int
  Error :: "string option"
  Completed :: bool

record DownloadJob =
  job_Model :: Model
  job_SearchResult :: SearchResult

datatype io_event =
  MkdirAll string
| OpenFile string bool
| Write string "byte list"
| Rename string string

text \<open>
  The state of a run: the file system, the progress objects (the registry maps a name to
  a pointer, the heap maps a pointer to the object), the requests sent and the file
  operations that succeeded, oldest first.
\<close>

record state =
  fs :: filesystem
  heap :: "nat \<rightharpoonup> DownloadProgress"
  next_addr :: nat
  downloads :: "string \<rightharpoonup> nat"
  requests :: "Request list"
  io_log :: "io_event list"

definition os_MkdirAll :: "env \<Rightarrow> string \<Rightarrow> state \<Rightarrow> string option \<times> state" where
  "os_MkdirAll e dir s =
     (case mkdirAll_err e dir of
        Some cause \<Rightarrow> (Some (''mkdir '' @ dir @ '': '' @ cause), s)
      | None \<Rightarrow> (None, s\<lparr>fs := (fs s)(dir \<mapsto> Directory), io_log := io_log s @ [MkdirAll dir]\<rparr>))"

text \<open>
  \<open>os.OpenFile\<close> with \<open>O_CREATE|O_WRONLY\<close> and either \<open>O_TRUNC\<close> (\<open>trunc\<close>) or
  \<open>O_APPEND\<close>: a missing file is created empty, an existing one is emptied only
  with \<open>O_TRUNC\<close>.
\<close>

definition os_OpenFile :: "env \<Rightarrow> string \<Rightarrow> bool \<Rightarrow> state \<Rightarrow> string option \<times> state" where
  "os_OpenFile e path trunc s =
     (case openFile_err e path of
        Some cause \<Rightarrow> (Some (''open '' @ path @ '': '' @ cause), s)
      | None \<Rightarrow>
          (case fs s path of
             Some Directory \<Rightarrow> (Some (''open '' @ path @ '': is a directory''), s)
           | Some (Inaccessible cause) \<Rightarrow> (Some (''open '' @ path @ '': '' @ cause), s)
           | Some (RegularFile bs) \<Rightarrow>
               (None, s\<lparr>fs := (fs s)(path \<mapsto> RegularFile (if trunc then [] else bs)),
                         io_log := io_log s @ [OpenFile path trunc]\<rparr>)
           | None \<Rightarrow>
               (None, s\<lparr>fs := (fs s)(path \<mapsto> RegularFile []),
                         io_log := io_log s @ [OpenFile path trunc]\<rparr>)))"

text \<open>
  \<open>file.Write\<close> on the file opened above puts the bytes at the end of the file (it was
  opened for appending, or it was empty and is written front to back). A failing write
  leaves the file as it was.
\<close>

definition file_Write :: "env \<Rightarrow> string \<Rightarrow> byte list \<Rightarrow> state \<Rightarrow> string option \<times> state" where
  "file_Write e path buf s =
     (case fs s path of
        Some (RegularFile bs) \<Rightarrow>
          (case write_err e path (length bs) of
             Some cause \<Rightarrow> (Some (''write '' @ path @ '': '' @ cause), s)
           | None \<Rightarrow>
               (None, s\<lparr>fs := (fs s)(path \<mapsto> RegularFile (bs @ buf)),
                         io_log := io_log s @ [Write path buf]\<rparr>))
      | _ \<Rightarrow> (Some (''write '' @ path @ '': file already closed''), s))"

definition os_Rename :: "env \<Rightarrow> string \<Rightarrow> string \<Rightarrow> state \<Rightarrow> string option \<times> state" where
  "os_Rename e oldpath newpath s =
     (case rename_err e oldpath newpath of
        Some cause \<Rightarrow> (Some (''rename '' @ oldpath @ '' '' @ newpath @ '': '' @ cause), s)
      | None \<Rightarrow>
          (case fs s oldpath of
             None \<Rightarrow>
               (Some (''rename '' @ oldpath @ '' '' @ newpath @ '': no such file or directory''), s)
           | Some (Inaccessible cause) \<Rightarrow>
               (Some (''rename '' @ oldpath @ '' '' @ newpath @ '': '' @ cause), s)
           | Some n \<Rightarrow>
               (None, s\<lparr>fs := (fs s)(oldpath := None, newpath \<mapsto> n),
                         io_log := io_log s @ [Rename oldpath newpath]\<rparr>)))"

definition httpClient_Do :: "env \<Rightarrow> Request \<Rightarrow> state \<Rightarrow> (string + Response) \<times> state" where
  "httpClient_Do e req s =
     (http_Do e (length (requests s)) req, s\<lparr>requests := requests s @ [req]\<rparr>)"

definition string_of_bytes :: "byte list \<Rightarrow> string" where
  "string_of_bytes bs = map (\<lambda>b. char_of (unat b)) bs"

subsection \<open>downloadFile: copying a response body to disk\<close>

type_synonym progress_fn = "int \<Rightarrow> int \<Rightarrow> state \<Rightarrow> state"

text \<open>
  The read loop of \<open>downloadFile\<close>: each chunk read is written to the open file, the
  counter advances by its length and the callback, if any, is called.
\<close>

fun copy_loop ::
  "env \<Rightarrow> string \<Rightarrow> int \<Rightarrow> progress_fn option \<Rightarrow> byte list list \<Rightarrow> read_end \<Rightarrow> int \<Rightarrow> state
     \<Rightarrow> string option \<times> state"
where
  "copy_loop e tempPath totalSize onProgress [] EOF downloaded s = (None, s)"
| "copy_loop e tempPath totalSize onProgress [] (ReadError err) downloaded s = (Some err, s)"
| "copy_loop e tempPath totalSize onProgress (buf # rest) fin downloaded s =
     (if 0 < length buf then
        (case file_Write e tempPath buf s of
           (Some err, s1) \<Rightarrow> (Some err, s1)
         | (None, s1) \<Rightarrow>
             (let downloaded' = downloaded + int (length buf);
                  s2 = (case onProgress of None \<Rightarrow> s1 | Some f \<Rightarrow> f downloaded' totalSize s1)
              in copy_loop e tempPath totalSize onProgress rest fin downloaded' s2))
      else copy_loop e tempPath totalSize onProgress rest fin downloaded s)"

definition downloadFile ::
  "env \<Rightarrow> byte list list \<Rightarrow> read_end \<Rightarrow> string \<Rightarrow> int \<Rightarrow> progress_fn option \<Rightarrow> state
     \<Rightarrow> string option \<times> state"
where
  "downloadFile e body fin destPath totalSize onProgress s =
     (let tempPath = destPath @ ''.tmp'';
          resuming = (case os_Stat (fs s) tempPath of Inr info \<Rightarrow> True | Inl err \<Rightarrow> False);
          resumeFrom = (case os_Stat (fs s) tempPath of Inr info \<Rightarrow> fi_Size info | Inl err \<Rightarrow> 0)
      in case os_OpenFile e tempPath (\<not> resuming) s of
           (Some err, s1) \<Rightarrow> (Some err, s1)
         | (None, s1) \<Rightarrow>
             (case (if 0 < resumeFrom then seek_err e tempPath else None) of
                Some cause \<Rightarrow> (Some (''seek '' @ tempPath @ '': '' @ cause), s1)
              | None \<Rightarrow>
                  (case copy_loop e tempPath totalSize onProgress body fin resumeFrom s1 of
                     (Some err, s2) \<Rightarrow> (Some err, s2)
                   | (None, s2) \<Rightarrow>
                       (case os_Rename e tempPath destPath s2 of
                          (Some err, s3) \<Rightarrow> (Some (''failed to move temp file: '' @ err), s3)
                        | (None, s3) \<Rightarrow> (None, s3)))))"

subsection \<open>The two clients' DownloadFile\<close>

definition hf_DownloadFile ::
  "env \<Rightarrow> string \<Rightarrow> string \<Rightarrow> string \<Rightarrow> progress_fn option \<Rightarrow> state \<Rightarrow> failure option \<times> state"
where
  "hf_DownloadFile e token downloadURL destPath onProgress s =
     (case newRequest_err e downloadURL of
        Some err \<Rightarrow> (Some (Err err), s)
      | None \<Rightarrow>
          (let req = \<lparr>req_Method = ''GET'', req_URL = downloadURL,
                      req_Header = (if token \<noteq> [] then [(''Authorization'', ''Bearer '' @ token)]
                                    else [])\<rparr>
           in case httpClient_Do e req s of
                (Inl err, s1) \<Rightarrow> (Some (Err err), s1)
              | (Inr resp, s1) \<Rightarrow>
                  (if StatusCode resp \<noteq> 200
                   then (Some (Err (''download failed: '' @ Status resp)), s1)
                   else (case downloadFile e (Body resp) (BodyEnd resp) destPath
                                (ContentLength resp) onProgress s1 of
                           (None, s2) \<Rightarrow> (None, s2)
                         | (Some err, s2) \<Rightarrow> (Some (Err err), s2)))))"

text \<open>
  The CivitAI client also appends the token to the URL and then builds the request
  again, discarding the error of the second \<open>http.NewRequest\<close> and the header set on the
  first one; when the second construction fails the request is nil and \<open>Do\<close> panics.
\<close>

definition civit_DownloadFile ::
  "env \<Rightarrow> string \<Rightarrow> string \<Rightarrow> string \<Rightarrow> progress_fn option \<Rightarrow> state \<Rightarrow> failure option \<times> state"
where
  "civit_DownloadFile e token downloadURL destPath onProgress s =
     (case newRequest_err e downloadURL of
        Some err \<Rightarrow> (Some (Err err), s)
      | None \<Rightarrow>
          (let rewrite = (token \<noteq> [] \<and> \<not> Contains downloadURL ''token='');
               sep = (if Contains downloadURL ''?'' then ''&'' else ''?'');
               downloadURL' = (if rewrite then downloadURL @ sep @ ''token='' @ token
                               else downloadURL);
               req = \<lparr>req_Method = ''GET'', req_URL = downloadURL',
                      req_Header = (if token \<noteq> [] \<and> \<not> rewrite
                                    then [(''Authorization'', ''Bearer '' @ token)] else [])\<rparr>
           in if rewrite \<and> newRequest_err e downloadURL' \<noteq> None
              then (Some (Panic ''invalid memory address or nil pointer dereference''), s)
              else
                (case httpClient_Do e req s of
                   (Inl err, s1) \<Rightarrow> (Some (Err err), s1)
                 | (Inr resp, s1) \<Rightarrow>
                     (if StatusCode resp \<noteq> 200
                      then (Some (Err (''download failed: '' @ Status resp @ '' - ''
                                        @ string_of_bytes (concat (Body resp)))), s1)
                      else (case downloadFile e (Body resp) (BodyEnd resp) destPath
                                   (ContentLength resp) onProgress s1 of
                              (None, s2) \<Rightarrow> (None, s2)
                            | (Some err, s2) \<Rightarrow> (Some (Err err), s2))))))"

subsection \<open>The download manager\<close>

text \<open>An update through a pointer to a progress object.\<close>

definition update_progress :: "nat \<Rightarrow> (DownloadProgress \<Rightarrow> DownloadProgress) \<Rightarrow> state \<Rightarrow> state" where
  "update_progress p f s =
     (case heap s p of
        None \<Rightarrow> s
      | Some v \<Rightarrow> s\<lparr>heap := (heap s)(p \<mapsto> f v)\<rparr>)"

text \<open>
  \<open>performDownload\<close> up to the call of the client: the resume offset read from the size
  of \<open>LocalPath.tmp\<close>, the progress callback, and the switch on the source.
\<close>

definition performDownload_fetch ::
  "env \<Rightarrow> Config \<Rightarrow> DownloadJob \<Rightarrow> nat \<Rightarrow> state \<Rightarrow> failure option \<times> state"
where
  "performDownload_fetch e config job progress s =
     (let tempPath = LocalPath (job_Model job) @ ''.tmp'';
          resumeFrom = (case os_Stat (fs s) tempPath of Inr info \<Rightarrow> fi_Size info | Inl err \<Rightarrow> 0);
          s0 = (case os_Stat (fs s) tempPath of
                  Inr info \<Rightarrow> update_progress progress (\<lambda>v. v\<lparr>Downloaded := resumeFrom\<rparr>) s
                | Inl err \<Rightarrow> s);
          onProgress = (\<lambda>downloaded total.
             update_progress progress
               (\<lambda>v. v\<lparr>Downloaded := downloaded + resumeFrom, Total := total\<rparr>));
          src = sr_Source (job_SearchResult job);
          url = sr_DownloadURL (job_SearchResult job)
      in if src = ''huggingface''
         then hf_DownloadFile e (HuggingFaceToken config) url tempPath (Some onProgress) s0
         else if src = ''civitai''
         then civit_DownloadFile e (CivitAIToken config) url tempPath (Some onProgress) s0
         else (Some (Err (''unknown source: '' @ src)), s0))"

text \<open>The whole of \<open>performDownload\<close>: the fetch, then the move to the final location.\<close>

definition performDownload ::
  "env \<Rightarrow> Config \<Rightarrow> DownloadJob \<Rightarrow> nat \<Rightarrow> state \<Rightarrow> failure option \<times> state"
where
  "performDownload e config job progress s =
     (case performDownload_fetch e config job progress s of
        (Some err, s1) \<Rightarrow> (Some err, s1)
      | (None, s1) \<Rightarrow>
          (case os_Rename e (LocalPath (job_Model job) @ ''.tmp'') (LocalPath (job_Model job)) s1 of
             (Some err, s2) \<Rightarrow> (Some (Err (''failed to move downloaded file: '' @ err)), s2)
           | (None, s2) \<Rightarrow> (None, s2)))"

definition unrecoverableErrors :: "string list" where
  "unrecoverableErrors = [''404'', ''403'', ''401'', ''not found'', ''forbidden'', ''unauthorized'']"

definition isUnrecoverableError :: "string \<Rightarrow> bool" where
  "isUnrecoverableError errStr = list_ex (\<lambda>e. Contains (ToLower errStr) e) unrecoverableErrors"

text \<open>
  What the retry loop does besides its file and network effects: it sleeps, and it makes
  an attempt, recorded with its index and what \<open>performDownload\<close> returned.
\<close>

datatype sched_event = is_Sleep: Sleep "64 word" | is_Try: Try int "failure option"

text \<open>
  The pause at the head of the loop body: nothing before the first attempt, and
  \<open>time.Sleep(time.Second * time.Duration(attempt*2))\<close> before every later one.
\<close>

definition pause_before :: "int \<Rightarrow> sched_event list" where
  "pause_before attempt =
     (if 0 < attempt then [Sleep (Second * word_of_int (attempt * 2))] else [])"

function downloadModel_loop ::
  "env \<Rightarrow> Config \<Rightarrow> DownloadJob \<Rightarrow> nat \<Rightarrow> int \<Rightarrow> failure option \<Rightarrow> state
     \<Rightarrow> failure option \<times> state \<times> sched_event list"
where
  "downloadModel_loop e config job progress attempt lastErr s =
     (if attempt < RetryAttempts config then
        (let pause = pause_before attempt
         in case performDownload e config job progress s of
              (None, s1) \<Rightarrow>
                (None, update_progress progress (\<lambda>v. v\<lparr>Completed := True\<rparr>) s1,
                 pause @ [Try attempt None])
            | (Some (Panic msg), s1) \<Rightarrow>
                (Some (Panic msg), s1, pause @ [Try attempt (Some (Panic msg))])
            | (Some (Err msg), s1) \<Rightarrow>
                (let s2 = update_progress progress (\<lambda>v. v\<lparr>Error := Some msg\<rparr>) s1
                 in if isUnrecoverableError msg
                    then (Some (Err msg), s2, pause @ [Try attempt (Some (Err msg))])
                    else (case downloadModel_loop e config job progress (attempt + 1)
                                 (Some (Err msg)) s2 of
                            (r, s3, sched) \<Rightarrow>
                              (r, s3, pause @ Try attempt (Some (Err msg)) # sched))))
      else (lastErr, s, []))"
  by pat_completeness auto
termination
  by (relation "measure (\<lambda>(e, config, job, progress, attempt, lastErr, s).
        nat (RetryAttempts config - attempt))") auto

text \<open>
  The start of \<open>downloadModel\<close>: a fresh progress object is allocated and the registry
  entry of the model's name is pointed at it, under the mutex.
\<close>

definition registerProgress :: "env \<Rightarrow> DownloadJob \<Rightarrow> state \<Rightarrow> nat \<times> state" where
  "registerProgress e job s =
     (let progress = next_addr s;
          obj = \<lparr>dp_Model = job_Model job, Downloaded = 0, Total = 0,
                 StartTime = time_Now e, Error = None, Completed = False\<rparr>
      in (progress,
          s\<lparr>heap := (heap s)(progress \<mapsto> obj), next_addr := Suc progress,
            downloads := (downloads s)(Name (job_Model job) \<mapsto> progress)\<rparr>))"

definition downloadModel ::
  "env \<Rightarrow> Config \<Rightarrow> DownloadJob \<Rightarrow> state \<Rightarrow> failure option \<times> state \<times> sched_event list"
where
  "downloadModel e config job s =
     (case registerProgress e job s of
        (progress, s0) \<Rightarrow>
          (case os_MkdirAll e (Dir (LocalPath (job_Model job))) s0 of
             (Some err, s1) \<Rightarrow>
               (Some (Err err), update_progress progress (\<lambda>v. v\<lparr>Error := Some err\<rparr>) s1, [])
           | (None, s1) \<Rightarrow> downloadModel_loop e config job progress 0 None s1))"

text \<open>
  \<open>GetProgress\<close> copies the registry map entry by entry. The values are pointers, so the
  copy maps each name to the same object as the registry does; a caller reads an entry
  of the copy through the heap of the moment.
\<close>

definition GetProgress :: "state \<Rightarrow> (string \<rightharpoonup> nat)" where
  "GetProgress s = (\<lambda>k. downloads s k)"

definition read_entry :: "state \<Rightarrow> (string \<rightharpoonup> nat) \<Rightarrow> string \<Rightarrow> DownloadProgress option" where
  "read_entry s progressCopy k =
     (case progressCopy k of
        None \<Rightarrow> None
      | Some p \<Rightarrow> heap s p)"

section \<open>Concrete runs\<close>

text \<open>
  The inputs at which the theorems below evaluate the program. The reference is the
  checkpoint \<open>a.safetensors\<close> of a workflow, resolved by the parser with the default
  configuration and found on HuggingFace.
\<close>

definition model_a :: Model where
  "model_a =
     \<lparr>Name = ''a.safetensors'', Type = ModelTypeCheckpoint, Hash = [], Source = [],
      DownloadURL = [],
      LocalPath = GetModelPath DefaultConfig ModelTypeCheckpoint ''a.safetensors'',
      Size = 0, IsPresent = False\<rparr>"

definition job_a :: DownloadJob where
  "job_a =
     \<lparr>job_Model = model_a,
      job_SearchResult =
        \<lparr>sr_Name = ''a.safetensors'', sr_Source = ''huggingface'',
         sr_DownloadURL = ''https://huggingface.co/org/repo/resolve/main/a.safetensors'',
         sr_Hash = [], sr_Size = 4, sr_ModelType = ModelTypeCheckpoint\<rparr>\<rparr>"

definition request_a :: Request where
  "request_a =
     \<lparr>req_Method = ''GET'',
      req_URL = ''https://huggingface.co/org/repo/resolve/main/a.safetensors'',
      req_Header = []\<rparr>"

definition state_empty :: state where
  "state_empty =
     \<lparr>fs = Map.empty, heap = Map.empty, next_addr = 0, downloads = Map.empty,
      requests = [], io_log = []\<rparr>"

text \<open>The server sends the four bytes of the file, declared as four.\<close>

definition response_full :: Response where
  "response_full =
     \<lparr>StatusCode = 200, Status = ''200 OK'', ContentLength = 4,
      Body = [[1, 2, 3, 4]], BodyEnd = EOF\<rparr>"

text \<open>The connection is cut after the first two bytes.\<close>

definition response_cut :: Response where
  "response_cut =
     \<lparr>StatusCode = 200, Status = ''200 OK'', ContentLength = 4,
      Body = [[1, 2]], BodyEnd = ReadError ''unexpected EOF''\<rparr>"

definition env_ok :: env where
  "env_ok =
     \<lparr>http_Do = (\<lambda>n req. Inr response_full),
      newRequest_err = (\<lambda>url. None),
      mkdirAll_err = (\<lambda>dir. None),
      openFile_err = (\<lambda>path. None),
      seek_err = (\<lambda>path. None),
      write_err = (\<lambda>path n. None),
      rename_err = (\<lambda>oldpath newpath. None),
      time_Now = 0\<rparr>"

text \<open>The first request of the run is cut, every later one is served in full.\<close>

definition env_cut :: env where
  "env_cut = env_ok\<lparr>http_Do := (\<lambda>n req. if n = 0 then Inr response_cut else Inr response_full)\<rparr>"

text \<open>The models directory is on another device than its staging files can be moved from.\<close>

definition env_xdev :: env where
  "env_xdev =
     env_ok\<lparr>rename_err := (\<lambda>oldpath newpath.
        if newpath = ''/workspace/ComfyUI/models/checkpoints/a.safetensors''
        then Some ''invalid cross-device link'' else None)\<rparr>"

text \<open>A checkpoint kept in a subfolder, present on disk under another extension.\<close>

definition model_sub :: Model where
  "model_sub =
     \<lparr>Name = ''sdxl/base.safetensors'', Type = ModelTypeCheckpoint, Hash = [], Source = [],
      DownloadURL = [],
      LocalPath = GetModelPath DefaultConfig ModelTypeCheckpoint ''sdxl/base.safetensors'',
      Size = 0, IsPresent = False\<rparr>"

definition fs_sub :: filesystem where
  "fs_sub =
     [''/workspace/ComfyUI/models/checkpoints/sdxl'' \<mapsto> Directory,
      ''/workspace/ComfyUI/models/checkpoints/sdxl/base.ckpt'' \<mapsto> RegularFile [1, 2, 3]]"

text \<open>A file system on which every \<open>stat\<close> is refused.\<close>

definition fs_denied :: filesystem where
  "fs_denied = (\<lambda>path. Some (Inaccessible ''permission denied''))"

text \<open>
  A reference that carries a content hash, registries that know the file by its hash
  only, and the default configuration, which holds no credential.
\<close>

definition model_hashed :: Model where
  "model_hashed = model_a\<lparr>Hash := ''9f86d081884c7d65''\<rparr>"

definition result_by_hash :: SearchResult where
  "result_by_hash =
     \<lparr>sr_Name = ''a.safetensors'', sr_Source = ''civitai'',
      sr_DownloadURL = ''https://civitai.com/api/download/models/1'',
      sr_Hash = ''9f86d081884c7d65'', sr_Size = 4, sr_ModelType = []\<rparr>"

definition reg_hash_only :: registries where
  "reg_hash_only =
     \<lparr>hf_SearchModels = (\<lambda>q t. Inr []),
      civit_SearchModels = (\<lambda>q t. Inr []),
      civit_GetModelByHash = (\<lambda>h. if h = ''9f86d081884c7d65'' then Inr (Some result_by_hash)
                                   else Inr None)\<rparr>"

text \<open>The file is no longer on the server.\<close>

definition response_404 :: Response where
  "response_404 =
     \<lparr>StatusCode = 404, Status = ''404 Not Found'', ContentLength = 9,
      Body = [], BodyEnd = EOF\<rparr>"

definition env_404 :: env where
  "env_404 = env_ok\<lparr>http_Do := (\<lambda>n req. Inr response_404)\<rparr>"

text \<open>The state right after the job of \<open>a.safetensors\<close> has entered the registry.\<close>

definition state_registered :: state where
  "state_registered = snd (registerProgress env_ok job_a state_empty)"

text \<open>A models directory that holds \<open>a.safetensors\<close> and nothing else.\<close>

definition fs_one :: filesystem where
  "fs_one =
     [''/workspace/ComfyUI/models/checkpoints/a.safetensors'' \<mapsto> RegularFile [1, 2, 3, 4]]"

section \<open>The presence scanner classifies\<close>
lemma checkModelExists_total: "\<exists>b. checkModelExists fsys model = Inr b"
  by (auto simp: checkModelExists_def Let_def)

lemma try_extensions_iff:
  "try_extensions fsys dirPath base exts \<longleftrightarrow>
     (\<exists>ext \<in> set exts. fileExists fsys (Join [dirPath, base @ ext]))"
  by (induction exts) (simp_all add: Let_def)

text \<open>
  What the check computes, for every reference: the resolved path is a file, or the
  reference name with its extension replaced by a candidate extension, joined to the
  directory of the resolved path, is a file, or the resolved path is a directory.
\<close>

lemma checkModelExists_iff:
  "checkModelExists fsys model =
     Inr (fileExists fsys (LocalPath model)
          \<or> (\<exists>ext \<in> set extensions.
                fileExists fsys
                  (Join [Dir (LocalPath model), TrimSuffix (Name model) (Ext (Name model)) @ ext]))
          \<or> dirExists fsys (LocalPath model))"
  by (simp add: checkModelExists_def Let_def try_extensions_iff)

lemma ScanModels_loop_eq:
  "ScanModels_loop fsys models present missing =
     Inr (present @ map (\<lambda>m. m\<lparr>IsPresent := True\<rparr>)
                      (filter (\<lambda>m. checkModelExists fsys m = Inr True) models),
          missing @ map (\<lambda>m. m\<lparr>IsPresent := False\<rparr>)
                      (filter (\<lambda>m. checkModelExists fsys m = Inr False) models))"
proof (induction models arbitrary: present missing)
  case Nil
  show ?case by simp
next
  case (Cons m ms)
  obtain b where b: "checkModelExists fsys m = Inr b"
    using checkModelExists_total by blast
  show ?case
    by (cases b) (simp_all add: b Cons.IH)
qed

lemma filter_complement_length:
  assumes "\<And>m. \<exists>b. f m = Inr b"
  shows "length (filter (\<lambda>m. f m = Inr True) xs) + length (filter (\<lambda>m. f m = Inr False) xs)
           = length xs"
proof (induction xs)
  case Nil
  show ?case by simp
next
  case (Cons x xs)
  from assms obtain b where "f x = Inr b" by blast
  with Cons show ?case by (cases b) simp_all
qed

text \<open>
  Claim C10. Whenever \<open>ScanModels\<close> succeeds, its two lists partition the input: the present
  list is the sublist of the references whose check says yes, the missing list the
  sublist of those whose check says no, both in input order; every reference falls in
  one of the two; and the flag \<open>IsPresent\<close> of a returned element tells the list it is in.
\<close>

theorem ScanModels_partition:
  assumes "ScanModels fsys models = Inr (present, missing)"
  shows "present = map (\<lambda>m. m\<lparr>IsPresent := True\<rparr>)
                     (filter (\<lambda>m. checkModelExists fsys m = Inr True) models)
       \<and> missing = map (\<lambda>m. m\<lparr>IsPresent := False\<rparr>)
                     (filter (\<lambda>m. checkModelExists fsys m = Inr False) models)
       \<and> (\<forall>m \<in> set models. checkModelExists fsys m = Inr True \<or> checkModelExists fsys m = Inr False)
       \<and> length present + length missing = length models
       \<and> (\<forall>m \<in> set present. IsPresent m) \<and> (\<forall>m \<in> set missing. \<not> IsPresent m)"
proof -
  from assms have p: "present = map (\<lambda>m. m\<lparr>IsPresent := True\<rparr>)
                     (filter (\<lambda>m. checkModelExists fsys m = Inr True) models)"
    and m: "missing = map (\<lambda>m. m\<lparr>IsPresent := False\<rparr>)
                     (filter (\<lambda>m. checkModelExists fsys m = Inr False) models)"
    by (simp_all add: ScanModels_def ScanModels_loop_eq)
  have tot: "\<forall>m \<in> set models. checkModelExists fsys m = Inr True \<or> checkModelExists fsys m = Inr False"
    using checkModelExists_total by (metis (full_types))
  have len: "length present + length missing = length models"
    unfolding p m by (simp add: filter_complement_length [OF checkModelExists_total])
  have flags: "(\<forall>m \<in> set present. IsPresent m) \<and> (\<forall>m \<in> set missing. \<not> IsPresent m)"
    unfolding p m by auto
  from p m tot len flags show ?thesis by blast
qed

theorem ScanModels_partition_witness:
  "ScanModels fs_one [model_sub, model_a] = Inr ([model_a\<lparr>IsPresent := True\<rparr>], [model_sub])
   \<and> length [model_a\<lparr>IsPresent := True\<rparr>] + length [model_sub] = length [model_sub, model_a]
   \<and> IsPresent (model_a\<lparr>IsPresent := True\<rparr>) \<and> \<not> IsPresent model_sub"
proof -
  have run: "ScanModels fs_one [model_sub, model_a] = Inr ([model_a\<lparr>IsPresent := True\<rparr>], [model_sub])"
    by code_simp
  from ScanModels_partition [OF run]
  have len: "length [model_a\<lparr>IsPresent := True\<rparr>] + length [model_sub] = length [model_sub, model_a]"
    and here: "\<forall>m \<in> set [model_a\<lparr>IsPresent := True\<rparr>]. IsPresent m"
    and gone: "\<forall>m \<in> set [model_sub]. \<not> IsPresent m"
    by blast+
  from here have p: "IsPresent (model_a\<lparr>IsPresent := True\<rparr>)"
    by simp
  from gone have m: "\<not> IsPresent model_sub"
    by simp
  from run len p m show ?thesis by blast
qed

text \<open>
  Claim C6. The check tries the resolved path as a file, then the candidate extensions,
  then the resolved path as a directory. The candidates are built from the whole
  reference name joined to the directory of the resolved path, so the subfolder of a
  name is counted twice: for the reference \<open>sdxl/base.safetensors\<close> the file
  \<open>base.ckpt\<close> that lies beside the resolved path is a regular file with the same
  base name and a candidate extension, and the reference is classified missing.
\<close>

theorem checkModelExists_subfolder_missing:
  "LocalPath model_sub = ''/workspace/ComfyUI/models/checkpoints/sdxl/base.safetensors''
   \<and> fileExists fs_sub ''/workspace/ComfyUI/models/checkpoints/sdxl/base.ckpt''
   \<and> checkModelExists fs_sub model_sub = Inr False
   \<and> ScanModels fs_sub [model_sub] = Inr ([], [model_sub\<lparr>IsPresent := False\<rparr>])"
  by code_simp

text \<open>
  Claim C7. A \<open>stat\<close> that fails with permission denied does not abort the
  classification: \<open>fileExists\<close> and \<open>dirExists\<close> turn every error into "no", the check
  returns no error, and \<open>ScanModels\<close> succeeds with the reference in the missing list.
\<close>

theorem ScanModels_access_error_classified_missing:
  "os_Stat fs_denied (LocalPath model_a) =
     Inl ''stat /workspace/ComfyUI/models/checkpoints/a.safetensors: permission denied''
   \<and> checkModelExists fs_denied model_a = Inr False
   \<and> ScanModels fs_denied [model_a] = Inr ([], [model_a\<lparr>IsPresent := False\<rparr>])"
  by code_simp

section \<open>The resolver queries the registries in order\<close>

lemma searchModels_loop_dom:
  "k \<in> dom (searchModels_loop config reg models results) \<longleftrightarrow>
     k \<in> dom results \<or> (\<exists>m \<in> set models. Name m = k \<and> fst (searchModel config reg m) \<noteq> None)"
  by (induction models arbitrary: results) (auto split: option.splits)

text \<open>
  Claim C8, as stated, fails where the reference carries a hash and no CivitAI credential
  is configured: neither name search matches, the registry knows the hash, and no lookup
  by hash is made.
\<close>

theorem searchModel_hash_lookup_skipped:
  "Hash model_hashed = ''9f86d081884c7d65''
   \<and> civit_GetModelByHash reg_hash_only (Hash model_hashed) = Inr (Some result_by_hash)
   \<and> CivitAIToken DefaultConfig = []
   \<and> searchModel DefaultConfig reg_hash_only model_hashed = (None, [QueryCivitAI ''a'' ''checkpoints''])"
  by code_simp

text \<open>
  Claim C8, amended. HuggingFace is queried, first, exactly when its token is configured;
  its first result is taken when it has one, and then CivitAI is not queried. Otherwise
  CivitAI is searched by name, whatever the credentials, and its first result is taken.
  When neither name search gives a result, the lookup by hash on CivitAI is made exactly
  when the reference has a hash and a CivitAI token is configured, and its result, if
  any, is returned with the reference's type. A name is absent from the mapping exactly
  when no reference of that name has a candidate; there is no error result.
\<close>

theorem searchModel_registry_priority:
  "(HuggingFaceToken config = [] \<longrightarrow>
      (\<forall>q t. QueryHuggingFace q t \<notin> set (snd (searchModel config reg model))))
   \<and> (HuggingFaceToken config \<noteq> [] \<longrightarrow>
        (\<exists>qs. snd (searchModel config reg model)
                = QueryHuggingFace (cleanModelName (Name model)) (Type model) # qs))
   \<and> (\<forall>r. HuggingFaceToken config \<noteq> []
          \<and> first_result (hf_SearchModels reg (cleanModelName (Name model)) (Type model)) = Some r \<longrightarrow>
        searchModel config reg model
          = (Some r, [QueryHuggingFace (cleanModelName (Name model)) (Type model)]))
   \<and> (HuggingFaceToken config = []
        \<or> first_result (hf_SearchModels reg (cleanModelName (Name model)) (Type model)) = None \<longrightarrow>
        QueryCivitAI (cleanModelName (Name model)) (Type model) \<in> set (snd (searchModel config reg model))
        \<and> (\<forall>r. first_result (civit_SearchModels reg (cleanModelName (Name model)) (Type model)) = Some r \<longrightarrow>
              fst (searchModel config reg model) = Some r
              \<and> QueryCivitAIByHash (Hash model) \<notin> set (snd (searchModel config reg model)))
        \<and> (first_result (civit_SearchModels reg (cleanModelName (Name model)) (Type model)) = None \<longrightarrow>
              (QueryCivitAIByHash (Hash model) \<in> set (snd (searchModel config reg model))
                 \<longleftrightarrow> Hash model \<noteq> [] \<and> CivitAIToken config \<noteq> [])
              \<and> fst (searchModel config reg model)
                  = (if Hash model \<noteq> [] \<and> CivitAIToken config \<noteq> []
                     then (case civit_GetModelByHash reg (Hash model) of
                             Inr (Some res) \<Rightarrow> Some (res\<lparr>sr_ModelType := Type model\<rparr>)
                           | _ \<Rightarrow> None)
                     else None)))
   \<and> (\<forall>k. k \<notin> dom (searchModels config reg models)
          \<longleftrightarrow> (\<forall>m \<in> set models. Name m = k \<longrightarrow> fst (searchModel config reg m) = None))"
proof (intro conjI)
  show "HuggingFaceToken config = [] \<longrightarrow>
      (\<forall>q t. QueryHuggingFace q t \<notin> set (snd (searchModel config reg model)))"
    by (auto simp: searchModel_def Let_def split: option.splits sum.splits)
  show "HuggingFaceToken config \<noteq> [] \<longrightarrow>
        (\<exists>qs. snd (searchModel config reg model)
                = QueryHuggingFace (cleanModelName (Name model)) (Type model) # qs)"
    by (auto simp: searchModel_def Let_def split: option.splits sum.splits)
  show "\<forall>r. HuggingFaceToken config \<noteq> []
          \<and> first_result (hf_SearchModels reg (cleanModelName (Name model)) (Type model)) = Some r \<longrightarrow>
        searchModel config reg model
          = (Some r, [QueryHuggingFace (cleanModelName (Name model)) (Type model)])"
    by (simp add: searchModel_def Let_def)
  show "HuggingFaceToken config = []
        \<or> first_result (hf_SearchModels reg (cleanModelName (Name model)) (Type model)) = None \<longrightarrow>
        QueryCivitAI (cleanModelName (Name model)) (Type model) \<in> set (snd (searchModel config reg model))
        \<and> (\<forall>r. first_result (civit_SearchModels reg (cleanModelName (Name model)) (Type model)) = Some r \<longrightarrow>
              fst (searchModel config reg model) = Some r
              \<and> QueryCivitAIByHash (Hash model) \<notin> set (snd (searchModel config reg model)))
        \<and> (first_result (civit_SearchModels reg (cleanModelName (Name model)) (Type model)) = None \<longrightarrow>
              (QueryCivitAIByHash (Hash model) \<in> set (snd (searchModel config reg model))
                 \<longleftrightarrow> Hash model \<noteq> [] \<and> CivitAIToken config \<noteq> [])
              \<and> fst (searchModel config reg model)
                  = (if Hash model \<noteq> [] \<and> CivitAIToken config \<noteq> []
                     then (case civit_GetModelByHash reg (Hash model) of
                             Inr (Some res) \<Rightarrow> Some (res\<lparr>sr_ModelType := Type model\<rparr>)
                           | _ \<Rightarrow> None)
                     else None))"
    by (auto simp: searchModel_def Let_def split: option.splits sum.splits)
  show "\<forall>k. k \<notin> dom (searchModels config reg models)
          \<longleftrightarrow> (\<forall>m \<in> set models. Name m = k \<longrightarrow> fst (searchModel config reg m) = None)"
    by (simp add: searchModels_def searchModels_loop_dom)
qed

theorem searchModel_registry_priority_witness:
  "HuggingFaceToken (DefaultConfig\<lparr>CivitAIToken := ''tok''\<rparr>) = []
   \<and> first_result (civit_SearchModels reg_hash_only (cleanModelName (Name model_hashed)) (Type model_hashed)) = None
   \<and> Hash model_hashed \<noteq> [] \<and> CivitAIToken (DefaultConfig\<lparr>CivitAIToken := ''tok''\<rparr>) \<noteq> []
   \<and> QueryCivitAIByHash (Hash model_hashed)
       \<in> set (snd (searchModel (DefaultConfig\<lparr>CivitAIToken := ''tok''\<rparr>) reg_hash_only model_hashed))
   \<and> fst (searchModel (DefaultConfig\<lparr>CivitAIToken := ''tok''\<rparr>) reg_hash_only model_hashed)
       = Some (result_by_hash\<lparr>sr_ModelType := Type model_hashed\<rparr>)
   \<and> fst (searchModel DefaultConfig reg_hash_only model_a) = None
   \<and> ''a.safetensors'' \<notin> dom (searchModels DefaultConfig reg_hash_only [model_a])"
proof -
  have h1: "HuggingFaceToken (DefaultConfig\<lparr>CivitAIToken := ''tok''\<rparr>) = []"
    by (simp add: DefaultConfig_def)
  have h2: "first_result (civit_SearchModels reg_hash_only (cleanModelName (Name model_hashed))
              (Type model_hashed)) = None"
    by (simp add: reg_hash_only_def)
  have h3: "Hash model_hashed \<noteq> [] \<and> CivitAIToken (DefaultConfig\<lparr>CivitAIToken := ''tok''\<rparr>) \<noteq> []"
    by (simp add: model_hashed_def)
  have h4: "civit_GetModelByHash reg_hash_only (Hash model_hashed) = Inr (Some result_by_hash)"
    by (simp add: reg_hash_only_def model_hashed_def)
  have h5: "fst (searchModel DefaultConfig reg_hash_only model_a) = None"
    by code_simp
  have h6: "\<forall>m \<in> set [model_a]. Name m = ''a.safetensors'' \<longrightarrow>
              fst (searchModel DefaultConfig reg_hash_only m) = None"
    using h5 by simp
  from searchModel_registry_priority
         [of "DefaultConfig\<lparr>CivitAIToken := ''tok''\<rparr>" reg_hash_only model_hashed "[]"]
       h1 h2 h3 h4
  have a: "QueryCivitAIByHash (Hash model_hashed)
       \<in> set (snd (searchModel (DefaultConfig\<lparr>CivitAIToken := ''tok''\<rparr>) reg_hash_only model_hashed))
   \<and> fst (searchModel (DefaultConfig\<lparr>CivitAIToken := ''tok''\<rparr>) reg_hash_only model_hashed)
       = Some (result_by_hash\<lparr>sr_ModelType := Type model_hashed\<rparr>)"
    by simp
  from searchModel_registry_priority [of DefaultConfig reg_hash_only model_a "[model_a]"] h6
  have b: "''a.safetensors'' \<notin> dom (searchModels DefaultConfig reg_hash_only [model_a])"
    by blast
  from h1 h2 h3 a h5 b show ?thesis by blast
qed

section \<open>The retry loop\<close>

lemma backoff_sint:
  assumes "0 \<le> k" and "k \<le> 4611686018"
  shows "sint (Second * word_of_int (k * 2) :: 64 word) = k * 2 * 1000000000"
proof -
  have eq: "(Second * word_of_int (k * 2) :: 64 word) = word_of_int (k * 2 * 1000000000)"
    by (simp add: Second_def)
  have "sint (word_of_int (k * 2 * 1000000000) :: 64 word) = signed_take_bit 63 (k * 2 * 1000000000)"
    by (simp only: signed_of_int) simp
  also have "\<dots> = k * 2 * 1000000000"
    using assms by (intro signed_take_bit_int_eq_self) simp_all
  finally show ?thesis by (simp only: eq)
qed

lemma split_at_Try:
  assumes "pause @ Try a x # rest = pre @ Try k y # post" and "\<forall>ev \<in> set pause. \<not> is_Try ev"
  shows "(pre = pause \<and> k = a \<and> y = x \<and> post = rest) \<or>
     (\<exists>pre2. pre = pause @ Try a x # pre2 \<and> rest = pre2 @ Try k y # post)"
  using assms
proof (induction pause arbitrary: pre)
  case Nil
  then show ?case by (cases pre) auto
next
  case (Cons ev evs)
  then show ?case by (cases pre) auto
qed

lemma split_at_Try_pause:
  assumes "pause_before a @ Try a x # rest = pre @ Try k y # post"
  shows "(pre = pause_before a \<and> k = a \<and> y = x \<and> post = rest) \<or>
     (\<exists>pre2. pre = pause_before a @ Try a x # pre2 \<and> rest = pre2 @ Try k y # post)"
  by (rule split_at_Try [OF assms]) (simp add: pause_before_def)

declare downloadModel_loop.simps [simp del]

lemma loop_sched_induct [consumes 1, case_names stop last retry]:
  assumes run: "downloadModel_loop e config job p a l s = (r, s', sched)"
    and stop: "\<And>a. \<not> a < RetryAttempts config \<Longrightarrow> Q a []"
    and last: "\<And>a out. a < RetryAttempts config \<Longrightarrow>
                 (\<forall>msg. out = Some (Err msg) \<longrightarrow> isUnrecoverableError msg) \<Longrightarrow>
                 Q a (pause_before a @ [Try a out])"
    and retry: "\<And>a msg rest. a < RetryAttempts config \<Longrightarrow> \<not> isUnrecoverableError msg \<Longrightarrow>
                 Q (a + 1) rest \<Longrightarrow> Q a (pause_before a @ Try a (Some (Err msg)) # rest)"
  shows "Q a sched"
  using run
proof (induction n \<equiv> "nat (RetryAttempts config - a)" arbitrary: a l s r s' sched)
  case 0
  then have na: "\<not> a < RetryAttempts config" by simp
  with "0.prems" have "sched = []"
    by (simp add: downloadModel_loop.simps)
  with stop [OF na] show ?case by simp
next
  case (Suc n)
  then have lt: "a < RetryAttempts config" and n: "n = nat (RetryAttempts config - (a + 1))"
    by simp_all
  obtain out s1 where pd: "performDownload e config job p s = (out, s1)"
    by (cases "performDownload e config job p s")
  show ?case
  proof (cases out)
    case None
    with lt pd Suc.prems have "sched = pause_before a @ [Try a None]"
      by (auto simp: downloadModel_loop.simps split: if_splits)
    with last [OF lt, of None] show ?thesis by simp
  next
    case (Some f)
    show ?thesis
    proof (cases f)
      case (Panic msg)
      with Some lt pd Suc.prems have "sched = pause_before a @ [Try a (Some (Panic msg))]"
        by (auto simp: downloadModel_loop.simps split: if_splits)
      with last [OF lt, of "Some (Panic msg)"] show ?thesis by simp
    next
      case (Err msg)
      show ?thesis
      proof (cases "isUnrecoverableError msg")
        case True
        with Err Some lt pd Suc.prems have "sched = pause_before a @ [Try a (Some (Err msg))]"
          by (auto simp: downloadModel_loop.simps Let_def split: if_splits)
        with last [OF lt, of "Some (Err msg)"] True show ?thesis by simp
      next
        case False
        define s2 where "s2 = update_progress p (\<lambda>v. v\<lparr>Error := Some msg\<rparr>) s1"
        obtain r3 s3 rest where rec:
          "downloadModel_loop e config job p (a + 1) (Some (Err msg)) s2 = (r3, s3, rest)"
          by (cases "downloadModel_loop e config job p (a + 1) (Some (Err msg)) s2")
        from False Err Some lt pd Suc.prems rec
        have sch: "sched = pause_before a @ Try a (Some (Err msg)) # rest"
          by (simp add: downloadModel_loop.simps [of e config job p a] Let_def s2_def
                   split: if_splits)
        have "Q (a + 1) rest"
          by (rule Suc.hyps(1) [OF n rec])
        from retry [OF lt False this] sch show ?thesis by simp
      qed
    qed
  qed
qed

lemma loop_count:
  assumes "downloadModel_loop e config job p a l s = (r, s', sched)"
  shows "int (length (filter is_Try sched)) \<le> max 0 (RetryAttempts config - a)"
  using assms by (induction rule: loop_sched_induct) (auto simp: pause_before_def)

lemma loop_before:
  assumes "downloadModel_loop e config job p a l s = (r, s', sched)"
  shows "\<forall>pre k out post. sched = pre @ Try k out # post \<longrightarrow>
           a \<le> k \<and> k < RetryAttempts config \<and>
           ((k = a \<and> pre = pause_before a) \<or>
            (a < k \<and> (\<exists>pre' out'. pre = pre' @ Try (k - 1) out' # pause_before k)))"
  using assms
proof (induction rule: loop_sched_induct)
  case (stop a)
  show ?case by simp
next
  case (last a out)
  show ?case
  proof (intro impI allI)
    fix pre k out' post
    assume eq: "pause_before a @ [Try a out] = pre @ Try k out' # post"
    from split_at_Try_pause [OF eq] last(1) show
      "a \<le> k \<and> k < RetryAttempts config \<and>
           ((k = a \<and> pre = pause_before a) \<or>
            (a < k \<and> (\<exists>pre' out'. pre = pre' @ Try (k - 1) out' # pause_before k)))"
      by auto
  qed
next
  case (retry a msg rest)
  show ?case
  proof (intro impI allI)
    fix pre k out' post
    assume eq: "pause_before a @ Try a (Some (Err msg)) # rest = pre @ Try k out' # post"
    from split_at_Try_pause [OF eq]
    show "a \<le> k \<and> k < RetryAttempts config \<and>
           ((k = a \<and> pre = pause_before a) \<or>
            (a < k \<and> (\<exists>pre' out'. pre = pre' @ Try (k - 1) out' # pause_before k)))"
    proof (elim disjE exE conjE)
      assume "pre = pause_before a" "k = a"
      with retry(1) show ?thesis by simp
    next
      fix pre2
      assume pre: "pre = pause_before a @ Try a (Some (Err msg)) # pre2"
        and rest: "rest = pre2 @ Try k out' # post"
      note ih = retry(3) [rule_format, OF rest]
      from ih have k: "a + 1 \<le> k" "k < RetryAttempts config" by blast+
      from ih have "(k = a + 1 \<and> pre2 = pause_before (a + 1)) \<or>
            (a + 1 < k \<and> (\<exists>pre' out'. pre2 = pre' @ Try (k - 1) out' # pause_before k))"
        by blast
      then show ?thesis
      proof
        assume c: "k = a + 1 \<and> pre2 = pause_before (a + 1)"
        with pre have "pre = pause_before a @ Try (k - 1) (Some (Err msg)) # pause_before k"
          by simp
        with k show ?thesis by auto
      next
        assume "a + 1 < k \<and> (\<exists>pre' out'. pre2 = pre' @ Try (k - 1) out' # pause_before k)"
        then obtain pre' o' where "pre2 = pre' @ Try (k - 1) o' # pause_before k"
          and "a + 1 < k" by blast
        with pre have "pre = (pause_before a @ Try a (Some (Err msg)) # pre') @ Try (k - 1) o' # pause_before k"
          by simp
        with k \<open>a + 1 < k\<close> show ?thesis by fastforce
      qed
    qed
  qed
qed

lemma loop_head:
  assumes "downloadModel_loop e config job p a l s = (r, s', sched)"
  shows "if a < RetryAttempts config
         then \<exists>out post'. sched = pause_before a @ Try a out # post'
         else sched = []"
  using assms by (induction rule: loop_sched_induct) simp_all

lemma loop_after:
  assumes "downloadModel_loop e config job p a l s = (r, s', sched)"
    and "sched = pre @ Try k (Some (Err msg)) # post"
  shows "(isUnrecoverableError msg \<longrightarrow> post = []) \<and>
         (\<not> isUnrecoverableError msg \<and> RetryAttempts config \<le> k + 1 \<longrightarrow> post = []) \<and>
         (\<not> isUnrecoverableError msg \<and> k + 1 < RetryAttempts config \<longrightarrow>
            (\<exists>out post'. post = pause_before (k + 1) @ Try (k + 1) out # post'))"
  using assms
proof (induction n \<equiv> "nat (RetryAttempts config - a)" arbitrary: a l s r s' sched pre)
  case 0
  then have "\<not> a < RetryAttempts config" by simp
  with loop_head [OF "0.prems"(1)] have "sched = []" by simp
  with "0.prems"(2) show ?case by simp
next
  case (Suc n)
  then have lt: "a < RetryAttempts config" and n: "n = nat (RetryAttempts config - (a + 1))"
    by simp_all
  obtain out s1 where pd: "performDownload e config job p s = (out, s1)"
    by (cases "performDownload e config job p s")
  show ?case
  proof (cases "\<exists>m. out = Some (Err m) \<and> \<not> isUnrecoverableError m")
    case False
    with lt pd Suc.prems(1) have sch: "sched = pause_before a @ [Try a out]"
      by (auto simp: downloadModel_loop.simps [of e config job p a] Let_def
               split: if_splits option.splits failure.splits)
    from sch Suc.prems(2) have eq: "pause_before a @ [Try a out] = pre @ Try k (Some (Err msg)) # post"
      by simp
    from split_at_Try_pause [OF eq] have "post = []" and "out = Some (Err msg)"
      by simp_all
    with False show ?thesis by simp
  next
    case True
    then obtain m where out: "out = Some (Err m)" and nu: "\<not> isUnrecoverableError m"
      by blast
    define s2 where "s2 = update_progress p (\<lambda>v. v\<lparr>Error := Some m\<rparr>) s1"
    obtain r3 s3 rest where rec:
      "downloadModel_loop e config job p (a + 1) (Some (Err m)) s2 = (r3, s3, rest)"
      by (cases "downloadModel_loop e config job p (a + 1) (Some (Err m)) s2")
    from out nu lt pd Suc.prems(1) rec
    have sch: "sched = pause_before a @ Try a (Some (Err m)) # rest"
      by (simp add: downloadModel_loop.simps [of e config job p a] Let_def s2_def)
    from sch Suc.prems(2)
    have eq: "pause_before a @ Try a (Some (Err m)) # rest = pre @ Try k (Some (Err msg)) # post"
      by simp
    from split_at_Try_pause [OF eq] show ?thesis
    proof (elim disjE exE conjE)
      assume "k = a" "Some (Err msg) = Some (Err m)" "post = rest"
      then have e: "msg = m" "post = rest" "k = a" by simp_all
      from loop_head [OF rec] have
        "if a + 1 < RetryAttempts config
         then \<exists>out post'. rest = pause_before (a + 1) @ Try (a + 1) out # post'
         else rest = []" .
      with e nu show ?thesis
        by (cases "a + 1 < RetryAttempts config") simp_all
    next
      fix pre2
      assume "rest = pre2 @ Try k (Some (Err msg)) # post"
      from Suc.hyps(1) [OF n rec this] show ?thesis .
    qed
  qed
qed

lemma downloadModel_sched:
  assumes "downloadModel e config job s = (r, s', sched)"
  shows "sched = [] \<or> (\<exists>p s1. downloadModel_loop e config job p 0 None s1 = (r, s', sched))"
proof -
  obtain p s0 where reg: "registerProgress e job s = (p, s0)"
    by (cases "registerProgress e job s")
  obtain m s1 where mk: "os_MkdirAll e (Dir (LocalPath (job_Model job))) s0 = (m, s1)"
    by (cases "os_MkdirAll e (Dir (LocalPath (job_Model job))) s0")
  show ?thesis
  proof (cases m)
    case None
    with assms reg mk have "downloadModel_loop e config job p 0 None s1 = (r, s', sched)"
      by (simp add: downloadModel_def)
    then show ?thesis by blast
  next
    case (Some err)
    with assms reg mk have "sched = []"
      by (simp add: downloadModel_def)
    then show ?thesis by simp
  qed
qed

lemma HasPrefix_iff: "HasPrefix s p \<longleftrightarrow> (\<exists>post. s = p @ post)"
proof
  assume "HasPrefix s p"
  then have "s = p @ drop (length p) s"
    by (metis HasPrefix_def append_take_drop_id)
  then show "\<exists>post. s = p @ post" ..
next
  assume "\<exists>post. s = p @ post"
  then show "HasPrefix s p" by (auto simp: HasPrefix_def)
qed

lemma Contains_iff: "Contains s sub \<longleftrightarrow> (\<exists>u v. s = u @ sub @ v)"
proof (induction s)
  case Nil
  show ?case by auto
next
  case (Cons c cs)
  show ?case
  proof
    assume "Contains (c # cs) sub"
    then consider "HasPrefix (c # cs) sub" | "Contains cs sub" by auto
    then show "\<exists>u v. c # cs = u @ sub @ v"
    proof cases
      case 1
      then obtain v where "c # cs = sub @ v" by (auto simp: HasPrefix_iff)
      then have "c # cs = [] @ sub @ v" by simp
      then show ?thesis by blast
    next
      case 2
      with Cons obtain u v where "cs = u @ sub @ v" by blast
      then have "c # cs = (c # u) @ sub @ v" by simp
      then show ?thesis by blast
    qed
  next
    assume "\<exists>u v. c # cs = u @ sub @ v"
    then obtain u v where uv: "c # cs = u @ sub @ v" by blast
    show "Contains (c # cs) sub"
    proof (cases u)
      case Nil
      with uv have "HasPrefix (c # cs) sub" by (auto simp: HasPrefix_iff)
      then show ?thesis by simp
    next
      case (Cons d u')
      with uv have "cs = u' @ sub @ v" by simp
      with Cons.IH have "Contains cs sub" by blast
      then show ?thesis by simp
    qed
  qed
qed

lemma ToLower_Contains_iff:
  "Contains (ToLower s) pat \<longleftrightarrow> (\<exists>u mid v. s = u @ mid @ v \<and> ToLower mid = pat)"
proof
  assume "Contains (ToLower s) pat"
  then obtain u' v' where m: "map toLower_char s = u' @ pat @ v'"
    by (auto simp: Contains_iff ToLower_def)
  from m [unfolded map_eq_append_conv]
  obtain u w where s: "s = u @ w" and w: "map toLower_char w = pat @ v'"
    by metis
  from w [unfolded map_eq_append_conv]
  obtain mid v where "w = mid @ v" and "map toLower_char mid = pat"
    by metis
  with s have "s = u @ mid @ v \<and> ToLower mid = pat" by (simp add: ToLower_def)
  then show "\<exists>u mid v. s = u @ mid @ v \<and> ToLower mid = pat" by blast
next
  assume "\<exists>u mid v. s = u @ mid @ v \<and> ToLower mid = pat"
  then obtain u mid v where "s = u @ mid @ v" and "ToLower mid = pat" by blast
  then have "ToLower s = ToLower u @ pat @ ToLower v" by (auto simp: ToLower_def)
  then show "Contains (ToLower s) pat" by (auto simp: Contains_iff)
qed

lemma unrecoverableErrors_lower: "pat \<in> set unrecoverableErrors \<Longrightarrow> ToLower pat = pat"
  by (auto simp: unrecoverableErrors_def ToLower_def toLower_char_def)

lemma isUnrecoverableError_iff:
  "isUnrecoverableError msg \<longleftrightarrow>
     (\<exists>pat \<in> {''401'', ''403'', ''404'', ''not found'', ''forbidden'', ''unauthorized''}.
        \<exists>u mid v. msg = u @ mid @ v \<and> ToLower mid = ToLower pat)"
proof -
  have set_eq: "{''401'', ''403'', ''404'', ''not found'', ''forbidden'', ''unauthorized''}
                 = set unrecoverableErrors"
    by (auto simp: unrecoverableErrors_def)
  have "isUnrecoverableError msg \<longleftrightarrow>
          (\<exists>pat \<in> set unrecoverableErrors. \<exists>u mid v. msg = u @ mid @ v \<and> ToLower mid = pat)"
    by (simp add: isUnrecoverableError_def list_ex_iff ToLower_Contains_iff)
  also have "\<dots> \<longleftrightarrow>
          (\<exists>pat \<in> set unrecoverableErrors. \<exists>u mid v. msg = u @ mid @ v \<and> ToLower mid = ToLower pat)"
    by (metis unrecoverableErrors_lower)
  finally show ?thesis by (simp only: set_eq)
qed

lemma pause_before_pos: "0 < k \<Longrightarrow> pause_before k = [Sleep (Second * word_of_int (k * 2))]"
  by (simp add: pause_before_def)

text \<open>
  Claim C3. A job makes at most \<open>RetryAttempts\<close> attempts (none when the setting is not
  positive), numbered from 0; the default setting is 3. Nothing precedes attempt 0, and
  what precedes attempt \<open>k \<ge> 1\<close> is attempt \<open>k - 1\<close> followed by one sleep of
  \<open>time.Second * time.Duration(k*2)\<close>, which is \<open>k * 2\<close> seconds for every \<open>k\<close> up to
  4611686018, the range in which that many nanoseconds fit the signed 64-bit duration.
\<close>

theorem downloadModel_attempts_bounded_linear_backoff:
  "int (length (filter is_Try (snd (snd (downloadModel e config job s))))) \<le> max 0 (RetryAttempts config)
   \<and> (\<forall>pre k out post. snd (snd (downloadModel e config job s)) = pre @ Try k out # post \<longrightarrow>
         0 \<le> k \<and> k < RetryAttempts config
         \<and> (if k = 0 then pre = []
             else \<exists>pre' out'. pre = pre' @ [Try (k - 1) out', Sleep (Second * word_of_int (k * 2))])
         \<and> (k \<le> 4611686018 \<longrightarrow> sint (Second * word_of_int (k * 2) :: 64 word) = k * 2 * sint Second))
   \<and> RetryAttempts DefaultConfig = 3"
proof -
  obtain r s' sched where run: "downloadModel e config job s = (r, s', sched)"
    by (cases "downloadModel e config job s")
  have count: "int (length (filter is_Try sched)) \<le> max 0 (RetryAttempts config)"
  proof -
    from downloadModel_sched [OF run] show ?thesis
    proof
      assume "sched = []"
      then show ?thesis by simp
    next
      assume "\<exists>p s1. downloadModel_loop e config job p 0 None s1 = (r, s', sched)"
      then obtain p s1 where "downloadModel_loop e config job p 0 None s1 = (r, s', sched)"
        by blast
      from loop_count [OF this] show ?thesis by simp
    qed
  qed
  have shape: "0 \<le> k \<and> k < RetryAttempts config
         \<and> (if k = 0 then pre = []
             else \<exists>pre' out'. pre = pre' @ [Try (k - 1) out', Sleep (Second * word_of_int (k * 2))])
         \<and> (k \<le> 4611686018 \<longrightarrow> sint (Second * word_of_int (k * 2) :: 64 word) = k * 2 * sint Second)"
    if eq: "sched = pre @ Try k out # post" for pre k out post
  proof -
    from eq have "sched \<noteq> []" by simp
    with downloadModel_sched [OF run]
    obtain p s1 where "downloadModel_loop e config job p 0 None s1 = (r, s', sched)"
      by blast
    from loop_before [OF this, rule_format, OF eq]
    have k: "0 \<le> k" "k < RetryAttempts config"
      and c: "(k = 0 \<and> pre = pause_before 0) \<or>
              (0 < k \<and> (\<exists>pre' out'. pre = pre' @ Try (k - 1) out' # pause_before k))"
      by blast+
    from c have pre: "if k = 0 then pre = []
             else \<exists>pre' out'. pre = pre' @ [Try (k - 1) out', Sleep (Second * word_of_int (k * 2))]"
    proof
      assume "k = 0 \<and> pre = pause_before 0"
      then show ?thesis by (simp add: pause_before_def)
    next
      assume "0 < k \<and> (\<exists>pre' out'. pre = pre' @ Try (k - 1) out' # pause_before k)"
      then have "0 < k" and "\<exists>pre' out'. pre = pre' @ Try (k - 1) out' # pause_before k"
        by blast+
      then show ?thesis by (simp only: pause_before_pos) simp
    qed
    have dur: "k \<le> 4611686018 \<longrightarrow> sint (Second * word_of_int (k * 2) :: 64 word) = k * 2 * sint Second"
    proof
      assume "k \<le> 4611686018"
      from backoff_sint [OF k(1) this] show "sint (Second * word_of_int (k * 2) :: 64 word) = k * 2 * sint Second"
        by (simp add: Second_def)
    qed
    from k pre dur show ?thesis by blast
  qed
  have "RetryAttempts DefaultConfig = 3" by (simp add: DefaultConfig_def)
  with count shape show ?thesis by (simp only: run snd_conv) blast
qed

theorem downloadModel_attempts_bounded_linear_backoff_witness:
  "snd (snd (downloadModel env_cut DefaultConfig job_a state_empty))
     = [Try 0 (Some (Err ''unexpected EOF'')), Sleep (Second * word_of_int (1 * 2))] @ Try 1 None # []
   \<and> int (length (filter is_Try (snd (snd (downloadModel env_cut DefaultConfig job_a state_empty)))))
       \<le> max 0 (RetryAttempts DefaultConfig)
   \<and> sint (Second * word_of_int (1 * 2) :: 64 word) = 1 * 2 * sint Second"
proof -
  have e: "snd (snd (downloadModel env_cut DefaultConfig job_a state_empty))
     = [Try 0 (Some (Err ''unexpected EOF'')), Sleep (Second * word_of_int (1 * 2))] @ Try 1 None # []"
    by code_simp
  have k: "(1::int) \<le> 4611686018" by simp
  from downloadModel_attempts_bounded_linear_backoff [of env_cut DefaultConfig job_a state_empty] e k
  show ?thesis by blast
qed

text \<open>
  Claim C4. An error message is classified unrecoverable exactly when some substring of
  it equals, letter case ignored, one of 401, 403, 404, "not found", "forbidden",
  "unauthorized". After an attempt that failed with such a message the job makes no
  further attempt. After an attempt that failed with any other message the next attempt
  follows, after its sleep, as long as the limit allows one, and none follows when the
  limit is reached.
\<close>

theorem downloadModel_retries_unless_terminal:
  assumes "snd (snd (downloadModel e config job s)) = pre @ Try k (Some (Err msg)) # post"
  shows "(isUnrecoverableError msg \<longleftrightarrow>
            (\<exists>pat \<in> {''401'', ''403'', ''404'', ''not found'', ''forbidden'', ''unauthorized''}.
               \<exists>u mid v. msg = u @ mid @ v \<and> ToLower mid = ToLower pat))
       \<and> (isUnrecoverableError msg \<longrightarrow> post = [])
       \<and> (\<not> isUnrecoverableError msg \<and> k + 1 < RetryAttempts config \<longrightarrow>
            (\<exists>out post'. post = Sleep (Second * word_of_int ((k + 1) * 2)) # Try (k + 1) out # post'))
       \<and> (\<not> isUnrecoverableError msg \<and> RetryAttempts config \<le> k + 1 \<longrightarrow> post = [])"
proof -
  obtain r s' sched where run: "downloadModel e config job s = (r, s', sched)"
    by (cases "downloadModel e config job s")
  with assms have eq: "sched = pre @ Try k (Some (Err msg)) # post" by simp
  then have "sched \<noteq> []" by simp
  with downloadModel_sched [OF run]
  obtain p s1 where loop: "downloadModel_loop e config job p 0 None s1 = (r, s', sched)"
    by blast
  from loop_before [OF loop, rule_format, OF eq] have "0 \<le> k" by blast
  then have pause: "pause_before (k + 1) = [Sleep (Second * word_of_int ((k + 1) * 2))]"
    by (simp add: pause_before_def)
  from loop_after [OF loop eq]
  have a: "isUnrecoverableError msg \<longrightarrow> post = []"
    and b: "\<not> isUnrecoverableError msg \<and> RetryAttempts config \<le> k + 1 \<longrightarrow> post = []"
    and c: "\<not> isUnrecoverableError msg \<and> k + 1 < RetryAttempts config \<longrightarrow>
            (\<exists>out post'. post = pause_before (k + 1) @ Try (k + 1) out # post')"
    by blast+
  from c have c': "\<not> isUnrecoverableError msg \<and> k + 1 < RetryAttempts config \<longrightarrow>
            (\<exists>out post'. post = Sleep (Second * word_of_int ((k + 1) * 2)) # Try (k + 1) out # post')"
    by (simp only: pause append_Cons append_Nil)
  from isUnrecoverableError_iff [of msg] a b c' show ?thesis by blast
qed

theorem downloadModel_retries_unless_terminal_witness:
  "snd (snd (downloadModel env_404 DefaultConfig job_a state_empty))
     = [] @ Try 0 (Some (Err ''download failed: 404 Not Found'')) # []
   \<and> isUnrecoverableError ''download failed: 404 Not Found''
   \<and> snd (snd (downloadModel env_cut DefaultConfig job_a state_empty))
     = [] @ Try 0 (Some (Err ''unexpected EOF''))
          # [Sleep (Second * word_of_int ((0 + 1) * 2)), Try (0 + 1) None]
   \<and> \<not> isUnrecoverableError ''unexpected EOF''
   \<and> 0 + 1 < RetryAttempts DefaultConfig"
proof -
  have e1: "snd (snd (downloadModel env_404 DefaultConfig job_a state_empty))
     = [] @ Try 0 (Some (Err ''download failed: 404 Not Found'')) # []"
    by code_simp
  have e2: "snd (snd (downloadModel env_cut DefaultConfig job_a state_empty))
     = [] @ Try 0 (Some (Err ''unexpected EOF''))
          # [Sleep (Second * word_of_int ((0 + 1) * 2)), Try (0 + 1) None]"
    by code_simp
  have u1: "isUnrecoverableError ''download failed: 404 Not Found''"
    by code_simp
  have u2: "\<not> isUnrecoverableError ''unexpected EOF''"
    by code_simp
  have r: "0 + 1 < RetryAttempts DefaultConfig"
    by (simp add: DefaultConfig_def)
  from downloadModel_retries_unless_terminal [OF e1]
       downloadModel_retries_unless_terminal [OF e2] e1 e2 u1 u2 r
  show ?thesis by blast
qed

text \<open>
  Claim C5, as stated, fails: with the final rename refused as a cross-device move, each
  of the three attempts of the default configuration fetches the whole file, fails at
  the rename, and is followed by the next attempt.
\<close>

theorem rename_failure_is_retried:
  "fst (performDownload_fetch env_xdev DefaultConfig job_a 0 state_registered) = None
   \<and> snd (snd (downloadModel env_xdev DefaultConfig job_a state_empty)) =
       [Try 0 (Some (Err ''failed to move downloaded file: rename /workspace/ComfyUI/models/checkpoints/a.safetensors.tmp /workspace/ComfyUI/models/checkpoints/a.safetensors: invalid cross-device link'')),
        Sleep 2000000000,
        Try 1 (Some (Err ''failed to move downloaded file: rename /workspace/ComfyUI/models/checkpoints/a.safetensors.tmp /workspace/ComfyUI/models/checkpoints/a.safetensors: invalid cross-device link'')),
        Sleep 4000000000,
        Try 2 (Some (Err ''failed to move downloaded file: rename /workspace/ComfyUI/models/checkpoints/a.safetensors.tmp /workspace/ComfyUI/models/checkpoints/a.safetensors: invalid cross-device link''))]
   \<and> fs (fst (snd (downloadModel env_xdev DefaultConfig job_a state_empty)))
         ''/workspace/ComfyUI/models/checkpoints/a.safetensors.tmp'' = Some (RegularFile [1, 2, 3, 4])"
  by code_simp

lemma os_Rename_error_shape:
  assumes "fst (os_Rename e oldpath newpath s) = Some err"
  shows "\<exists>cause. err = ''rename '' @ oldpath @ '' '' @ newpath @ '': '' @ cause"
  using assms
  by (auto simp: os_Rename_def split: option.splits node.splits)

lemma loop_first_attempt:
  assumes "downloadModel_loop e config job p a l s = (r, s', sched)"
    and "a < RetryAttempts config"
  shows "\<exists>rest. sched = pause_before a @ Try a (fst (performDownload e config job p s)) # rest"
  using assms
  by (auto simp: downloadModel_loop.simps [of e config job p a] Let_def
           split: prod.splits option.splits failure.splits if_splits)

text \<open>
  Claim C5, amended. When the fetch of an attempt succeeds and the rename to the final
  path fails, the attempt fails with "failed to move downloaded file: " followed by the
  rename error, which names both paths and the cause. The loop treats it as any other
  error: no attempt follows when that message contains one of the unrecoverable
  signatures or the limit is reached, and otherwise the next attempt follows.
\<close>

theorem rename_failure_retried_unless_signature:
  assumes fetched: "fst (performDownload_fetch e config job p s) = None"
    and rename: "fst (os_Rename e (LocalPath (job_Model job) @ ''.tmp'') (LocalPath (job_Model job))
                   (snd (performDownload_fetch e config job p s))) = Some err"
    and limit: "k < RetryAttempts config"
  shows "fst (performDownload e config job p s) = Some (Err (''failed to move downloaded file: '' @ err))
       \<and> (\<exists>cause. err = ''rename '' @ LocalPath (job_Model job) @ ''.tmp'' @ '' ''
                          @ LocalPath (job_Model job) @ '': '' @ cause)
       \<and> (\<exists>rest. snd (snd (downloadModel_loop e config job p k l s))
                   = pause_before k @ Try k (Some (Err (''failed to move downloaded file: '' @ err))) # rest
                 \<and> (if isUnrecoverableError (''failed to move downloaded file: '' @ err)
                        \<or> RetryAttempts config \<le> k + 1
                     then rest = []
                     else \<exists>out post. rest = pause_before (k + 1) @ Try (k + 1) out # post))"
proof -
  let ?msg = "''failed to move downloaded file: '' @ err"
  obtain s1 where f: "performDownload_fetch e config job p s = (None, s1)"
    using fetched by (cases "performDownload_fetch e config job p s") simp
  obtain s2 where rn: "os_Rename e (LocalPath (job_Model job) @ ''.tmp'') (LocalPath (job_Model job)) s1
                        = (Some err, s2)"
    using rename f
    by (cases "os_Rename e (LocalPath (job_Model job) @ ''.tmp'') (LocalPath (job_Model job)) s1") simp
  have pd: "performDownload e config job p s = (Some (Err ?msg), s2)"
    by (simp add: performDownload_def f rn)
  from rename have shape: "\<exists>cause. err = ''rename '' @ (LocalPath (job_Model job) @ ''.tmp'') @ '' ''
                          @ LocalPath (job_Model job) @ '': '' @ cause"
    by (rule os_Rename_error_shape)
  obtain r s' sched where loop: "downloadModel_loop e config job p k l s = (r, s', sched)"
    by (cases "downloadModel_loop e config job p k l s")
  from loop_first_attempt [OF loop limit] pd
  obtain rest where eq: "sched = pause_before k @ Try k (Some (Err ?msg)) # rest"
    by auto
  from loop_after [OF loop eq]
  have rest: "if isUnrecoverableError ?msg \<or> RetryAttempts config \<le> k + 1
                     then rest = []
                     else \<exists>out post. rest = pause_before (k + 1) @ Try (k + 1) out # post"
    by (cases "isUnrecoverableError ?msg"; cases "RetryAttempts config \<le> k + 1") simp_all
  from pd have "fst (performDownload e config job p s) = Some (Err ?msg)" by simp
  moreover from shape have "\<exists>cause. err = ''rename '' @ LocalPath (job_Model job) @ ''.tmp'' @ '' ''
                          @ LocalPath (job_Model job) @ '': '' @ cause"
    by simp
  moreover from eq rest loop have "\<exists>rest. snd (snd (downloadModel_loop e config job p k l s))
                   = pause_before k @ Try k (Some (Err ?msg)) # rest
                 \<and> (if isUnrecoverableError ?msg \<or> RetryAttempts config \<le> k + 1
                     then rest = []
                     else \<exists>out post. rest = pause_before (k + 1) @ Try (k + 1) out # post)"
    by simp
  ultimately show ?thesis by blast
qed

theorem rename_failure_retried_unless_signature_witness:
  "fst (performDownload_fetch env_xdev DefaultConfig job_a 0 state_registered) = None
   \<and> fst (os_Rename env_xdev (LocalPath (job_Model job_a) @ ''.tmp'') (LocalPath (job_Model job_a))
            (snd (performDownload_fetch env_xdev DefaultConfig job_a 0 state_registered)))
       = Some ''rename /workspace/ComfyUI/models/checkpoints/a.safetensors.tmp /workspace/ComfyUI/models/checkpoints/a.safetensors: invalid cross-device link''
   \<and> 0 < RetryAttempts DefaultConfig
   \<and> fst (performDownload env_xdev DefaultConfig job_a 0 state_registered)
       = Some (Err (''failed to move downloaded file: '' @ ''rename /workspace/ComfyUI/models/checkpoints/a.safetensors.tmp /workspace/ComfyUI/models/checkpoints/a.safetensors: invalid cross-device link''))"
proof -
  have h1: "fst (performDownload_fetch env_xdev DefaultConfig job_a 0 state_registered) = None"
    by code_simp
  have h2: "fst (os_Rename env_xdev (LocalPath (job_Model job_a) @ ''.tmp'') (LocalPath (job_Model job_a))
            (snd (performDownload_fetch env_xdev DefaultConfig job_a 0 state_registered)))
       = Some ''rename /workspace/ComfyUI/models/checkpoints/a.safetensors.tmp /workspace/ComfyUI/models/checkpoints/a.safetensors: invalid cross-device link''"
    by code_simp
  have h3: "0 < RetryAttempts DefaultConfig"
    by (simp add: DefaultConfig_def)
  from rename_failure_retried_unless_signature [OF h1 h2 h3] h1 h2 h3
  show ?thesis by blast
qed

section \<open>Staging, resumption and the progress registry\<close>

text \<open>
  Claim C1. The first attempt is cut after 2 of the 4 declared bytes, which stay in the
  staging file. The second attempt sends the same request as the first, with no header
  at all and so no offset, opens the staging file for appending and writes the whole
  body after the 2 bytes: the job succeeds with a final file of 6 bytes.
\<close>

theorem resumed_download_appends_whole_body:
  "snd (snd (downloadModel env_cut DefaultConfig job_a state_empty)) =
     [Try 0 (Some (Err ''unexpected EOF'')), Sleep 2000000000, Try 1 None]
   \<and> io_log (fst (snd (downloadModel env_cut DefaultConfig job_a state_empty))) =
       [MkdirAll ''/workspace/ComfyUI/models/checkpoints'',
        OpenFile ''/workspace/ComfyUI/models/checkpoints/a.safetensors.tmp.tmp'' True,
        Write ''/workspace/ComfyUI/models/checkpoints/a.safetensors.tmp.tmp'' [1, 2],
        OpenFile ''/workspace/ComfyUI/models/checkpoints/a.safetensors.tmp.tmp'' False,
        Write ''/workspace/ComfyUI/models/checkpoints/a.safetensors.tmp.tmp'' [1, 2, 3, 4],
        Rename ''/workspace/ComfyUI/models/checkpoints/a.safetensors.tmp.tmp''
               ''/workspace/ComfyUI/models/checkpoints/a.safetensors.tmp'',
        Rename ''/workspace/ComfyUI/models/checkpoints/a.safetensors.tmp''
               ''/workspace/ComfyUI/models/checkpoints/a.safetensors'']
   \<and> requests (fst (snd (downloadModel env_cut DefaultConfig job_a state_empty))) =
       [request_a, request_a]
   \<and> req_Header request_a = []
   \<and> ContentLength response_full = 4
   \<and> fs (fst (snd (downloadModel env_cut DefaultConfig job_a state_empty)))
         ''/workspace/ComfyUI/models/checkpoints/a.safetensors'' = Some (RegularFile [1, 2, 1, 2, 3, 4])"
  by code_simp

text \<open>
  Claim C2. In a run that succeeds at once, the bytes are written to the final path with
  the suffix \<open>.tmp\<close> twice, because \<open>performDownload\<close> hands \<open>LocalPath.tmp\<close> to
  \<open>downloadFile\<close> as destination and \<open>downloadFile\<close> adds its own suffix; the file
  reaches the final path by two renames.
\<close>

theorem staging_path_has_two_suffixes:
  "LocalPath (job_Model job_a) = ''/workspace/ComfyUI/models/checkpoints/a.safetensors''
   \<and> fst (downloadModel env_ok DefaultConfig job_a state_empty) = None
   \<and> io_log (fst (snd (downloadModel env_ok DefaultConfig job_a state_empty))) =
       [MkdirAll ''/workspace/ComfyUI/models/checkpoints'',
        OpenFile ''/workspace/ComfyUI/models/checkpoints/a.safetensors.tmp.tmp'' True,
        Write ''/workspace/ComfyUI/models/checkpoints/a.safetensors.tmp.tmp'' [1, 2, 3, 4],
        Rename ''/workspace/ComfyUI/models/checkpoints/a.safetensors.tmp.tmp''
               ''/workspace/ComfyUI/models/checkpoints/a.safetensors.tmp'',
        Rename ''/workspace/ComfyUI/models/checkpoints/a.safetensors.tmp''
               ''/workspace/ComfyUI/models/checkpoints/a.safetensors'']"
  by code_simp

text \<open>
  Claim C9. A copy of the registry taken right after the job was registered shows 0 bytes
  of 0 for the model; read again after the download has reported its progress, the same
  entry of the same copy shows 4 bytes of 4.
\<close>

theorem snapshot_entry_changes_after_update:
  "map_option Downloaded (read_entry state_registered (GetProgress state_registered) ''a.safetensors'')
     = Some 0
   \<and> map_option Total (read_entry state_registered (GetProgress state_registered) ''a.safetensors'')
     = Some 0
   \<and> map_option Downloaded
       (read_entry (snd (performDownload env_ok DefaultConfig job_a 0 state_registered))
          (GetProgress state_registered) ''a.safetensors'') = Some 4
   \<and> map_option Total
       (read_entry (snd (performDownload env_ok DefaultConfig job_a 0 state_registered))
          (GetProgress state_registered) ''a.safetensors'') = Some 4"
  by code_simp

end
